theory Spec2Isabelle
  imports Complex_Main
begin

section \<open>Conventions of the embedding\<close>

text \<open>
  The analytics modules work on pandas columns of floating-point numbers in which a
  missing cell is NaN. A column is modelled as a list of optional values, \<open>None\<close> being
  the missing cell, and arithmetic is carried out over the reals: rounding is not
  modelled, and a result that the floating-point code reports as NaN (or that passes
  through an infinity) is \<open>None\<close>. The pandas operations the source calls
  (\<open>shift\<close>, \<open>corr\<close>, \<open>rolling\<close>, \<open>interpolate\<close>, \<open>ffill\<close>, \<open>bfill\<close>, \<open>pct_change\<close>)
  are written out as list functions that follow the library's documented behaviour for
  the arguments the source passes.
\<close>

type_synonym series = "real option list"

section \<open>scripts/fill\_price\_series.py\<close>

text \<open>
  \<open>df[cols].ffill()\<close> carries the last observation seen so far into every missing cell
  below it; cells above the first observation stay missing.
\<close>

fun ffill_from :: "'a option \<Rightarrow> 'a option list \<Rightarrow> 'a option list" where
  "ffill_from prev [] = []"
| "ffill_from prev (None # xs) = prev # ffill_from prev xs"
| "ffill_from prev (Some v # xs) = Some v # ffill_from (Some v) xs"

definition ffill :: "'a option list \<Rightarrow> 'a option list" where
  "ffill xs = ffill_from None xs"

text \<open>The first observation of a column, if it has one.\<close>

fun first_valid :: "'a option list \<Rightarrow> 'a option" where
  "first_valid [] = None"
| "first_valid (None # xs) = first_valid xs"
| "first_valid (Some v # xs) = Some v"

text \<open>\<open>.bfill()\<close> gives every missing cell the next observation below it.\<close>

fun bfill :: "'a option list \<Rightarrow> 'a option list" where
  "bfill [] = []"
| "bfill (None # xs) = first_valid xs # bfill xs"
| "bfill (Some v # xs) = Some v # bfill xs"

text \<open>
  A table read from CSV is a list of named columns. \<open>fill_file\<close> returns without
  writing when the source file does not exist; otherwise every column other than
  \<open>date\<close> is replaced by \<open>ffill().bfill()\<close> of itself and the table is written out.
  The result is the table written, \<open>None\<close> when nothing is written.
\<close>

type_synonym 'a frame = "(string \<times> 'a option list) list"

definition fill_columns :: "'a frame \<Rightarrow> 'a frame" where
  "fill_columns df =
     map (\<lambda>(c, xs). if c \<noteq> ''date'' then (c, bfill (ffill xs)) else (c, xs)) df"

definition fill_file :: "(string \<rightharpoonup> 'a frame) \<Rightarrow> string \<Rightarrow> 'a frame option" where
  "fill_file fs name =
     (case fs name of
        None \<Rightarrow> None
      | Some df \<Rightarrow> Some (fill_columns df))"

text \<open>The last observation at or above row \<open>i\<close> of a column.\<close>

definition last_valid_upto :: "'a option list \<Rightarrow> nat \<Rightarrow> 'a option" where
  "last_valid_upto xs i = first_valid (rev (take (Suc i) xs))"


section \<open>src/correlation\_analyzer.py: lagged correlations\<close>

text \<open>
  \<open>s.shift(k)\<close> for \<open>k \<ge> 0\<close> moves every value \<open>k\<close> rows down: the first \<open>k\<close> rows
  become missing, the last \<open>k\<close> values fall off the end, the length is kept. The shift
  counts rows of the table; the \<open>date\<close> column plays no part in it.
\<close>

definition shift :: "nat \<Rightarrow> series \<Rightarrow> series" where
  "shift k xs = take (length xs) (replicate k None @ xs)"

text \<open>
  \<open>a.corr(b)\<close> on two columns of one table first keeps the rows in which both cells are
  present (\<open>valid = notna(a) & notna(b)\<close>) \<dots>
\<close>

fun overlap :: "series \<Rightarrow> series \<Rightarrow> (real \<times> real) list" where
  "overlap (Some x # xs) (Some y # ys) = (x, y) # overlap xs ys"
| "overlap (Some x # xs) (None # ys) = overlap xs ys"
| "overlap (None # xs) (y # ys) = overlap xs ys"
| "overlap [] ys = []"
| "overlap (x # xs) [] = []"

text \<open>
  \<dots> and then takes the off-diagonal entry of \<open>numpy.corrcoef\<close>: the covariance with
  divisor \<open>n - 1\<close>, divided by both standard deviations. With no row left pandas returns
  NaN at once; with one row the divisor is zero and with a constant column a standard
  deviation is zero, and the quotient \<open>0 / 0\<close> is NaN.
\<close>

definition mean :: "real list \<Rightarrow> real" where
  "mean xs = sum_list xs / real (length xs)"

definition cov :: "real list \<Rightarrow> real list \<Rightarrow> real" where
  "cov xs ys =
     (\<Sum>(x, y) \<leftarrow> zip xs ys. (x - mean xs) * (y - mean ys)) / (real (length xs) - 1)"

definition pearson :: "(real \<times> real) list \<Rightarrow> real option" where
  "pearson ps =
     (let xs = map fst ps; ys = map snd ps in
      if length ps < 2 then None
      else
        let sx = sqrt (cov xs xs); sy = sqrt (cov ys ys) in
        if sx = 0 \<or> sy = 0 then None else Some (cov xs ys / sx / sy))"

definition corr :: "series \<Rightarrow> series \<Rightarrow> real option" where
  "corr xs ys = pearson (overlap xs ys)"

text \<open>
  \<open>lagged_correlation(s1, s2, max_lag)\<close> with no rolling window: one result per lag in
  \<open>range(0, max_lag + 1, 7)\<close>. No other function of the repository calls it.
\<close>

definition lagged_correlation :: "series \<Rightarrow> series \<Rightarrow> nat \<Rightarrow> (nat \<times> real option) list" where
  "lagged_correlation s1 s2 max_lag =
     map (\<lambda>lag. (lag, corr (if lag = 0 then s1 else shift lag s1) s2))
       (map (\<lambda>k. 7 * k) [0 ..< max_lag div 7 + 1])"

text \<open>
  \<open>analyze_geopolitical_correlations\<close>, from the merged table on. The merged table has
  one row per date found both in the time series and in the aggregated risk table; its
  columns are looked up by name. For each risk column and each market column that the
  table has, the loop appends the row for lag 0 and then the rows for the lags
  \<open>[7, 14, 28]\<close>, each with the risk column shifted by that many rows.
\<close>

record merged_table =
  dates :: "int list"
  cols :: "string \<rightharpoonup> series"

record corr_row =
  risk_indicator :: string
  market_variable :: string
  correlation :: "real option"
  lag_days :: nat

definition market_vars :: "string list" where
  "market_vars = [''brent_price_usd'', ''wti_price_usd'', ''btc_price_usd'',
                  ''gpu_high_median'', ''gpu_mid_median'', ''ram_ddr5_median'']"

definition risk_vars :: "string list" where
  "risk_vars = [''geopolitical_risk'', ''conflicts'', ''bilateral_tensions'']"

definition pair_rows :: "string \<Rightarrow> string \<Rightarrow> series \<Rightarrow> series \<Rightarrow> corr_row list" where
  "pair_rows risk_var market_var r m =
     \<lparr>risk_indicator = risk_var, market_variable = market_var,
      correlation = corr r m, lag_days = 0\<rparr>
     # map (\<lambda>lag. \<lparr>risk_indicator = risk_var, market_variable = market_var,
                     correlation = corr (shift lag r) m, lag_days = lag\<rparr>)
         [7, 14, 28]"

definition market_loop :: "merged_table \<Rightarrow> string \<Rightarrow> series \<Rightarrow> corr_row list" where
  "market_loop merged risk_var r =
     concat (map (\<lambda>market_var.
                    case cols merged market_var of
                      None \<Rightarrow> []
                    | Some m \<Rightarrow> pair_rows risk_var market_var r m)
                 market_vars)"

definition analyze_geopolitical_correlations :: "merged_table \<Rightarrow> corr_row list" where
  "analyze_geopolitical_correlations merged =
     concat (map (\<lambda>risk_var.
                    case cols merged risk_var of
                      None \<Rightarrow> []
                    | Some r \<Rightarrow> market_loop merged risk_var r)
                 risk_vars)"

text \<open>Reading the table: the lags listed for a pair, and the correlation listed for a triple.\<close>

definition is_pair :: "string \<Rightarrow> string \<Rightarrow> corr_row \<Rightarrow> bool" where
  "is_pair rv mv row \<longleftrightarrow> risk_indicator row = rv \<and> market_variable row = mv"

definition pair_lags :: "corr_row list \<Rightarrow> string \<Rightarrow> string \<Rightarrow> nat list" where
  "pair_lags table rv mv = map lag_days (filter (is_pair rv mv) table)"

definition triple :: "corr_row \<Rightarrow> string \<times> string \<times> nat" where
  "triple row = (risk_indicator row, market_variable row, lag_days row)"






section \<open>scripts/normalize\_hardware\_prices.py: the tier of a listing\<close>

text \<open>
  The regular expressions of \<open>tier_from_title\<close> use literal characters, \<open>\d\<close>, \<open>?\<close>,
  bounded repetition, alternation and \<open>$\<close>. They are kept as syntax trees and run by a
  backtracking matcher: \<open>rmatch r s\<close> lists, in the order in which Python's matcher
  tries them, the remainders of \<open>s\<close> after each way of matching \<open>r\<close> at its start.
  A quantifier is greedy, an alternation tries its left branch first, and \<open>$\<close> matches
  at the end of the string or before a final newline. Characters are bytes here, so
  \<open>\d\<close> is an ASCII digit.
\<close>

datatype regex =
    Chr char
  | Digit
  | Opt regex
  | Seq regex regex
  | Alt regex regex
  | Eos

definition is_digit :: "char \<Rightarrow> bool" where
  "is_digit c \<longleftrightarrow> c \<in> set ''0123456789''"

fun rmatch :: "regex \<Rightarrow> string \<Rightarrow> string list" where
  "rmatch (Chr c) s = (case s of [] \<Rightarrow> [] | x # t \<Rightarrow> if x = c then [t] else [])"
| "rmatch Digit s = (case s of [] \<Rightarrow> [] | x # t \<Rightarrow> if is_digit x then [t] else [])"
| "rmatch (Opt r) s = rmatch r s @ [s]"
| "rmatch (Seq r1 r2) s = concat (map (rmatch r2) (rmatch r1 s))"
| "rmatch (Alt r1 r2) s = rmatch r1 s @ rmatch r2 s"
| "rmatch Eos s = (if s = [] \<or> s = [CHR 0x0A] then [s] else [])"

text \<open>
  \<open>re.search(r, s)\<close> takes the leftmost position at which \<open>r\<close> matches and, there, the
  first match the matcher finds; the result is the matched text (\<open>m.group(1)\<close> for the
  pattern \<open>(\d{3,4})\<close>, and all the source asks of the other patterns is whether they
  match).
\<close>

fun search :: "regex \<Rightarrow> string \<Rightarrow> string option" where
  "search r [] = (case rmatch r [] of [] \<Rightarrow> None | t # _ \<Rightarrow> Some [])"
| "search r (x # s) =
     (case rmatch r (x # s) of
        [] \<Rightarrow> search r s
      | t # _ \<Rightarrow> Some (take (length (x # s) - length t) (x # s)))"

text \<open>The four patterns of the source, in its order.\<close>

definition model_re :: regex where
  \<comment> \<open>\<open>(\d{3,4})\<close>\<close>
  "model_re = Seq Digit (Seq Digit (Seq Digit (Opt Digit)))"

definition high_re :: regex where
  \<comment> \<open>\<open>8?0$|90$|80$|90\<close>\<close>
  "high_re =
     Alt (Seq (Opt (Chr CHR ''8'')) (Seq (Chr CHR ''0'') Eos))
    (Alt (Seq (Chr CHR ''9'') (Seq (Chr CHR ''0'') Eos))
    (Alt (Seq (Chr CHR ''8'') (Seq (Chr CHR ''0'') Eos))
         (Seq (Chr CHR ''9'') (Chr CHR ''0''))))"

definition mid_re :: regex where
  \<comment> \<open>\<open>6?0$|70$|60$|70\<close>\<close>
  "mid_re =
     Alt (Seq (Opt (Chr CHR ''6'')) (Seq (Chr CHR ''0'') Eos))
    (Alt (Seq (Chr CHR ''7'') (Seq (Chr CHR ''0'') Eos))
    (Alt (Seq (Chr CHR ''6'') (Seq (Chr CHR ''0'') Eos))
         (Seq (Chr CHR ''7'') (Chr CHR ''0''))))"

definition low_re :: regex where
  \<comment> \<open>\<open>50$|50\<close>\<close>
  "low_re =
     Alt (Seq (Chr CHR ''5'') (Seq (Chr CHR ''0'') Eos))
         (Seq (Chr CHR ''5'') (Chr CHR ''0''))"

text \<open>
  \<open>tier_from_title\<close>: a missing title has no tier; otherwise the first run of three or
  four digits is the model number, and the three patterns are tried on it in the order
  high, mid, low.
\<close>

definition tier_from_title :: "string option \<Rightarrow> string option" where
  "tier_from_title t =
     (case t of
        None \<Rightarrow> None
      | Some s \<Rightarrow>
          (case search model_re s of
             None \<Rightarrow> None
           | Some model \<Rightarrow>
               if search high_re model \<noteq> None then Some ''high''
               else if search mid_re model \<noteq> None then Some ''mid''
               else if search low_re model \<noteq> None then Some ''low''
               else None))"

text \<open>
  The listings that reach the classification have a date and a parsed price. The rows
  without a tier are dropped (\<open>dropna(subset=['tier'])\<close>), and the median price is taken
  per date and tier.
\<close>

record listing =
  l_date :: int
  title :: "string option"
  price_num :: real

definition with_tier :: "listing list \<Rightarrow> (listing \<times> string) list" where
  "with_tier df =
     List.map_filter (\<lambda>row. map_option (\<lambda>t. (row, t)) (tier_from_title (title row))) df"

definition median :: "real list \<Rightarrow> real option" where
  "median vs =
     (let s = sort vs; n = length vs in
      if n = 0 then None
      else if odd n then Some (s ! (n div 2))
      else Some ((s ! (n div 2 - 1) + s ! (n div 2)) / 2))"

definition tier_median :: "listing list \<Rightarrow> int \<Rightarrow> string \<Rightarrow> real option" where
  "tier_median df d t =
     median (map (\<lambda>(row, _). price_num row)
               (filter (\<lambda>(row, t'). l_date row = d \<and> t' = t) (with_tier df)))"

section \<open>src/correlation\_analyzer.py: interpolation, volatility and returns\<close>

text \<open>
  \<open>analyze_timeseries\<close> interpolates each price-like column with
  \<open>interpolate(method='linear', limit_direction='forward')\<close>. With the linear method the
  rows count as equally spaced. pandas gives every missing row the value of
  \<open>numpy.interp\<close> over the observed rows, which is linear between two observations and
  constant beyond the last one, and then, the direction being forward, restores the
  missing rows above the first observation. \<open>first_obs k xs\<close> is the first observation
  of \<open>xs\<close> with its row number, the rows being numbered from \<open>k\<close>.
\<close>

fun first_obs :: "nat \<Rightarrow> series \<Rightarrow> (nat \<times> real) option" where
  "first_obs k [] = None"
| "first_obs k (Some v # xs) = Some (k, v)"
| "first_obs k (None # xs) = first_obs (Suc k) xs"

definition next_obs :: "series \<Rightarrow> nat \<Rightarrow> (nat \<times> real) option" where
  "next_obs xs i = first_obs i (drop i xs)"

definition prev_obs :: "series \<Rightarrow> nat \<Rightarrow> (nat \<times> real) option" where
  "prev_obs xs i =
     (case first_obs 0 (rev (take (Suc i) xs)) of
        None \<Rightarrow> None
      | Some (j, v) \<Rightarrow> Some (i - j, v))"

definition interp_at :: "series \<Rightarrow> nat \<Rightarrow> real option" where
  "interp_at xs i =
     (case xs ! i of
        Some v \<Rightarrow> Some v
      | None \<Rightarrow>
          (case prev_obs xs i of
             None \<Rightarrow> None
           | Some (p, a) \<Rightarrow>
               (case next_obs xs i of
                  None \<Rightarrow> Some a
                | Some (q, b) \<Rightarrow>
                    Some ((b - a) / (real q - real p) * (real i - real p) + a))))"

definition interpolate_forward :: "series \<Rightarrow> series" where
  "interpolate_forward xs = map (interp_at xs) [0 ..< length xs]"

text \<open>
  \<open>calculate_volatility(series, window)\<close> is \<open>series.rolling(window).std()\<close>. The window
  of a row is the row and the \<open>window - 1\<close> rows above it, fewer at the top of the column.
  With the default \<open>min_periods = window\<close> the result is missing unless the window holds
  \<open>window\<close> observations; otherwise it is their standard deviation with divisor
  \<open>n - 1\<close>, which needs two observations.
\<close>

definition window_at :: "nat \<Rightarrow> series \<Rightarrow> nat \<Rightarrow> series" where
  "window_at w xs i = drop (Suc i - w) (take (Suc i) xs)"

definition observed :: "series \<Rightarrow> real list" where
  "observed xs = List.map_filter id xs"

definition sample_std :: "real list \<Rightarrow> real option" where
  "sample_std vs =
     (if length vs < 2 then None
      else Some (sqrt ((\<Sum>v \<leftarrow> vs. (v - mean vs)\<^sup>2) / (real (length vs) - 1))))"



text \<open>
  \<open>calculate_returns(series)\<close> is \<open>series.pct_change() * 100\<close>. \<open>pct_change\<close> has a
  parameter \<open>fill_method\<close>, which the source leaves at the library's default. In the
  pandas 2 releases, the ones that have the \<open>format='mixed'\<close> option the modules use and
  that install next to the dashboard's Streamlit, the default is \<open>'pad'\<close>: the column is
  forward-filled first, and then each row is divided by the row above,
  \<open>data / data.shift(1) - 1\<close>. A division by zero gives no finite number.
\<close>

datatype fill_method = Pad | NoFill

definition ratio_change :: "real option \<Rightarrow> real option \<Rightarrow> real option" where
  "ratio_change cur prev =
     (case (cur, prev) of
        (Some c, Some p) \<Rightarrow> if p = 0 then None else Some (c / p - 1)
      | _ \<Rightarrow> None)"

definition pct_change :: "fill_method \<Rightarrow> series \<Rightarrow> series" where
  "pct_change fm xs =
     (let data = (case fm of Pad \<Rightarrow> ffill xs | NoFill \<Rightarrow> xs)
      in map2 ratio_change data (shift 1 data))"




section \<open>src/predictive\_analyzer.py\<close>

text \<open>
  The risk table has one row per date and country, the time-series table one row per
  date. Dates are day numbers; every row is taken to have a date. Floating-point
  arithmetic on optional values: an operand that is not a finite number makes the
  result one, and so does a division by zero.
\<close>

record geo_row =
  g_date :: int
  country :: string
  geopolitical_risk :: "real option"
  conflicts :: "real option"

record ts_row =
  t_date :: int
  btc_price_usd :: "real option"

definition lift2 :: "(real \<Rightarrow> real \<Rightarrow> real) \<Rightarrow> real option \<Rightarrow> real option \<Rightarrow> real option" where
  "lift2 f a b = (case (a, b) of (Some x, Some y) \<Rightarrow> Some (f x y) | _ \<Rightarrow> None)"

definition fdiv :: "real option \<Rightarrow> real option \<Rightarrow> real option" where
  "fdiv a b =
     (case (a, b) of
        (Some x, Some y) \<Rightarrow> if y = 0 then None else Some (x / y)
      | _ \<Rightarrow> None)"

text \<open>\<open>Series.mean()\<close> skips the missing cells and is NaN when none is left.\<close>

definition nanmean :: "series \<Rightarrow> real option" where
  "nanmean xs = (let vs = observed xs in if vs = [] then None else Some (mean vs))"

definition max_date :: "geo_row list \<Rightarrow> int option" where
  "max_date geo_df = (if geo_df = [] then None else Some (Max (set (map g_date geo_df))))"

definition latest_rows :: "geo_row list \<Rightarrow> geo_row list" where
  \<comment> \<open>\<open>geo_df[geo_df['date'] == geo_df['date'].max()]\<close>\<close>
  "latest_rows geo_df =
     (case max_date geo_df of
        None \<Rightarrow> []
      | Some d \<Rightarrow> filter (\<lambda>row. g_date row = d) geo_df)"

definition tail :: "nat \<Rightarrow> 'a list \<Rightarrow> 'a list" where
  "tail n xs = drop (length xs - n) xs"

text \<open>
  \<open>forecast_btc_from_risk\<close>. The time series is sorted by date (a stable sort stands
  for \<open>sort_values\<close>), the rows with a BTC price are kept and the last 60 of them are
  the recent prices; with none the function returns \<open>None\<close>. The scenario formulas are
  those of the source, term by term.
\<close>

record forecast =
  current_btc :: real
  current_risk :: "real option"
  current_conflicts :: "real option"
  forecast_date :: "int option"
  base_case :: "real option"
  bull_case :: "real option"
  bear_case :: "real option"
  stress_scenario :: "real option"

definition recent_btc :: "ts_row list \<Rightarrow> real list" where
  "recent_btc ts_df = tail 60 (observed (map btc_price_usd (sort_key t_date ts_df)))"

definition forecast_btc_from_risk :: "geo_row list \<Rightarrow> ts_row list \<Rightarrow> int \<Rightarrow> forecast option" where
  "forecast_btc_from_risk geo_df ts_df days_ahead =
     (let latest_geo = latest_rows geo_df;
          cur_risk = nanmean (map geopolitical_risk latest_geo);
          cur_conflicts = nanmean (map conflicts latest_geo);
          recent = recent_btc ts_df
      in if recent = [] then None
         else
           let cur_btc = Some (last recent);
               btc_volatility = sample_std recent;
               predicted_change_from_risk = lift2 (*) cur_risk (Some 0.15);
               one_plus = lift2 (+) (Some 1) predicted_change_from_risk
           in Some \<lparr>current_btc = last recent,
                    current_risk = cur_risk,
                    current_conflicts = cur_conflicts,
                    forecast_date = map_option (\<lambda>d. d + days_ahead) (max_date geo_df),
                    base_case = lift2 (*) cur_btc one_plus,
                    bull_case =
                      lift2 (*) cur_btc (lift2 (+) one_plus (fdiv btc_volatility cur_btc)),
                    bear_case =
                      lift2 (*) cur_btc (lift2 (-) one_plus (fdiv btc_volatility cur_btc)),
                    stress_scenario =
                      lift2 (*) cur_btc
                        (lift2 (+) (Some 1) (lift2 (*) predicted_change_from_risk (Some 2)))\<rparr>)"

text \<open>
  \<open>calculate_early_warning_signals\<close>. The rows of the last 30 days are averaged per
  date. With more than seven dates, the 7-row moving averages of both indicators are
  taken and the trend is \<open>ma7.iloc[-1] - ma7.iloc[-7]\<close>; a comparison with a NaN is
  false. A signal keeps its type, its indicator text and the number it reports.
\<close>

record signal =
  sig_type :: string
  indicator :: string
  sig_value :: real

definition recent_rows :: "geo_row list \<Rightarrow> geo_row list" where
  "recent_rows geo_df =
     (case max_date geo_df of
        None \<Rightarrow> []
      | Some d \<Rightarrow> filter (\<lambda>row. d - 30 \<le> g_date row) geo_df)"

definition by_date :: "geo_row list \<Rightarrow> (int \<times> real option \<times> real option) list" where
  "by_date rows =
     map (\<lambda>d. (d,
               nanmean (map geopolitical_risk (filter (\<lambda>row. g_date row = d) rows)),
               nanmean (map conflicts (filter (\<lambda>row. g_date row = d) rows))))
         (sort (remdups (map g_date rows)))"

definition rolling_mean :: "nat \<Rightarrow> series \<Rightarrow> series" where
  "rolling_mean w xs =
     map (\<lambda>i. let obs = observed (window_at w xs i)
               in if length obs < w then None else Some (mean obs))
         [0 ..< length xs]"

definition iloc_neg :: "series \<Rightarrow> nat \<Rightarrow> real option" where
  \<comment> \<open>\<open>s.iloc[-k]\<close> for \<open>1 \<le> k \<le> len(s)\<close>\<close>
  "iloc_neg s k = s ! (length s - k)"

definition exceeds :: "real option \<Rightarrow> real \<Rightarrow> bool" where
  "exceeds a t = (case a of None \<Rightarrow> False | Some x \<Rightarrow> t < x)"

definition below :: "real option \<Rightarrow> real \<Rightarrow> bool" where
  "below a t = (case a of None \<Rightarrow> False | Some x \<Rightarrow> x < t)"

definition trend :: "series \<Rightarrow> real option" where
  "trend ma7 = lift2 (-) (iloc_neg ma7 1) (iloc_neg ma7 7)"

definition trend_signals :: "(int \<times> real option \<times> real option) list \<Rightarrow> signal list" where
  "trend_signals bd =
     (if 7 < length bd then
        let risk_trend = trend (rolling_mean 7 (map (\<lambda>(d, r, c). r) bd));
            conflict_trend = trend (rolling_mean 7 (map (\<lambda>(d, r, c). c) bd))
        in (if exceeds risk_trend 0.3
            then [\<lparr>sig_type = ''WARNING'', indicator = ''Geopolitical Risk Rising'',
                   sig_value = the risk_trend\<rparr>] else [])
         @ (if exceeds conflict_trend 0.5
            then [\<lparr>sig_type = ''ALERT'', indicator = ''Conflict Escalation'',
                   sig_value = the conflict_trend\<rparr>] else [])
         @ (if below risk_trend (- 0.3)
            then [\<lparr>sig_type = ''INFO'', indicator = ''Risk De-escalation'',
                   sig_value = the risk_trend\<rparr>] else [])
      else [])"

definition country_signals :: "geo_row list \<Rightarrow> signal list" where
  "country_signals geo_df =
     map (\<lambda>row. \<lparr>sig_type = ''CRITICAL'', indicator = country row @ '' - Extreme Risk'',
                  sig_value = the (geopolitical_risk row)\<rparr>)
         (filter (\<lambda>row. exceeds (geopolitical_risk row) 1.0) (latest_rows geo_df))"

definition calculate_early_warning_signals :: "geo_row list \<Rightarrow> signal list" where
  "calculate_early_warning_signals geo_df =
     trend_signals (by_date (recent_rows geo_df)) @ country_signals geo_df"

text \<open>
  For comparison, the change of a moving average over seven rows: its last value
  against the value seven rows above the last, \<open>ma7.iloc[-8]\<close>.
\<close>

definition trend_over_7 :: "series \<Rightarrow> real option" where
  "trend_over_7 ma7 = lift2 (-) (iloc_neg ma7 1) (iloc_neg ma7 8)"

text \<open>
  An input for the detector: one country observed on fourteen consecutive days, its
  risk rising by 0.045 a day, its conflict index at zero.
\<close>

definition steady_rise :: "geo_row list" where
  "steady_rise =
     map (\<lambda>d. \<lparr>g_date = int d, country = ''A'',
                geopolitical_risk = Some (9 * real d / 200), conflicts = Some 0\<rparr>)
         [0 ..< 14]"

section \<open>Properties\<close>

section \<open>Forward and backward filling of the price indices\<close>


lemma length_ffill_from: "length (ffill_from p xs) = length xs"
  by (induction p xs rule: ffill_from.induct) simp_all

lemma length_bfill: "length (bfill xs) = length xs"
  by (induction xs rule: bfill.induct) simp_all

lemma first_valid_append:
  "first_valid (xs @ ys) = (case first_valid xs of Some v \<Rightarrow> Some v | None \<Rightarrow> first_valid ys)"
  by (induction xs rule: first_valid.induct) simp_all

lemma first_valid_None_iff: "first_valid xs = None \<longleftrightarrow> (\<forall>v. Some v \<notin> set xs)"
  by (induction xs rule: first_valid.induct) auto

lemma last_valid_upto_Cons_Suc:
  "last_valid_upto (x # xs) (Suc i) =
     (case last_valid_upto xs i of Some v \<Rightarrow> Some v | None \<Rightarrow> x)"
  by (cases x) (simp_all add: last_valid_upto_def first_valid_append split: option.splits)

lemma last_valid_upto_Cons_0: "last_valid_upto (x # xs) 0 = x"
  by (cases x) (simp_all add: last_valid_upto_def)

lemma ffill_from_nth:
  "i < length xs \<Longrightarrow>
   ffill_from p xs ! i = (case last_valid_upto xs i of Some v \<Rightarrow> Some v | None \<Rightarrow> p)"
proof (induction p xs arbitrary: i rule: ffill_from.induct)
  case (1 prev)
  then show ?case by simp
next
  case (2 prev xs)
  then show ?case
    by (cases i) (simp_all add: last_valid_upto_Cons_0 last_valid_upto_Cons_Suc split: option.splits)
next
  case (3 prev v xs)
  then show ?case
    by (cases i) (simp_all add: last_valid_upto_Cons_0 last_valid_upto_Cons_Suc split: option.splits)
qed

lemma bfill_nth:
  "i < length xs \<Longrightarrow> bfill xs ! i = first_valid (drop i xs)"
proof (induction xs arbitrary: i rule: bfill.induct)
  case 1
  then show ?case by simp
next
  case (2 xs)
  then show ?case by (cases i) simp_all
next
  case (3 v xs)
  then show ?case by (cases i) simp_all
qed

lemma bfill_id: "None \<notin> set ys \<Longrightarrow> bfill ys = ys"
  by (induction ys rule: bfill.induct) simp_all

lemma ffill_from_Some_full: "None \<notin> set (ffill_from (Some v) xs)"
  by (induction "Some v" xs arbitrary: v rule: ffill_from.induct) simp_all

lemma first_valid_ffill: "first_valid (ffill_from None xs) = first_valid xs"
proof (induction xs)
  case Nil
  then show ?case by simp
next
  case (Cons a xs)
  then show ?case by (cases a) simp_all
qed

lemma bfill_ffill_nth:
  "i < length xs \<Longrightarrow>
   bfill (ffill xs) ! i =
     (case last_valid_upto xs i of Some v \<Rightarrow> Some v | None \<Rightarrow> first_valid xs)"
  unfolding ffill_def
proof (induction xs arbitrary: i)
  case Nil
  then show ?case by simp
next
  case (Cons a xs)
  show ?case
  proof (cases a)
    case None
    show ?thesis
    proof (cases i)
      case 0
      then show ?thesis
        using None by (simp add: first_valid_ffill last_valid_upto_Cons_0)
    next
      case (Suc j)
      then have "j < length xs" using Cons.prems by simp
      from Cons.IH [OF this] show ?thesis
        using None Suc by (simp add: last_valid_upto_Cons_Suc split: option.splits)
    qed
  next
    case (Some v)
    have full: "bfill (ffill_from (Some v) xs) = ffill_from (Some v) xs"
      by (rule bfill_id) (rule ffill_from_Some_full)
    show ?thesis
    proof (cases i)
      case 0
      then show ?thesis
        using Some by (simp add: last_valid_upto_Cons_0)
    next
      case (Suc j)
      then have "j < length xs" using Cons.prems by simp
      then show ?thesis
        using Some Suc full
        by (simp add: ffill_from_nth last_valid_upto_Cons_Suc split: option.splits)
    qed
  qed
qed

lemma bfill_ffill_full:
  assumes "Some v \<in> set xs"
  shows "None \<notin> set (bfill (ffill xs))"
proof
  assume "None \<in> set (bfill (ffill xs))"
  then obtain i where i: "i < length (bfill (ffill xs))" and n: "bfill (ffill xs) ! i = None"
    by (auto simp: in_set_conv_nth)
  have len: "i < length xs"
    using i by (simp add: length_bfill ffill_def length_ffill_from)
  have "first_valid xs \<noteq> None"
    using assms by (auto simp: first_valid_None_iff)
  with n bfill_ffill_nth [OF len] show False
    by (auto split: option.splits)
qed


text \<open>
  Claim C10. When \<open>fill_file\<close> finds its source file, every column other than \<open>date\<close>
  that holds at least one observation comes out with no missing cell: a cell at or
  below the first observation holds the last observation at or above it (interior and
  trailing gaps are forward-filled), and a cell above the first observation holds the
  first observation (leading gaps are back-filled). Column names, column order and
  column lengths are those of the source.
\<close>

theorem fill_file_no_missing:
  assumes "fs name = Some df"
    and "k < length df"
    and "fst (df ! k) \<noteq> ''date''"
    and "Some v \<in> set (snd (df ! k))"
  shows "\<exists>out. fill_file fs name = Some out
           \<and> map fst out = map fst df
           \<and> length (snd (out ! k)) = length (snd (df ! k))
           \<and> None \<notin> set (snd (out ! k))
           \<and> (\<forall>i < length (snd (df ! k)).
                 snd (out ! k) ! i =
                   (case last_valid_upto (snd (df ! k)) i of
                      Some w \<Rightarrow> Some w
                    | None \<Rightarrow> first_valid (snd (df ! k))))"
proof -
  obtain c xs where cx: "df ! k = (c, xs)" by (cases "df ! k")
  have out: "fill_file fs name = Some (fill_columns df)"
    using assms(1) by (simp add: fill_file_def)
  have names: "map fst (fill_columns df) = map fst df"
    by (simp add: fill_columns_def case_prod_beta cong: if_cong)
  have col: "fill_columns df ! k = (c, bfill (ffill xs))"
    using assms(2,3) cx by (simp add: fill_columns_def)
  have len: "length (bfill (ffill xs)) = length xs"
    by (simp add: length_bfill length_ffill_from ffill_def)
  have full: "None \<notin> set (bfill (ffill xs))"
    using assms(4) cx by (simp add: bfill_ffill_full)
  show ?thesis
    using out names col len full cx
    by (simp add: bfill_ffill_nth cong: option.case_cong)
qed

theorem fill_file_no_missing_witness:
  "fill_file
     [''gpu_price_index.csv'' \<mapsto>
        [(''date'', [Some 1, Some 2, Some 3, Some 4, Some 5]),
         (''gpu_high_median'', [None, Some 700, None, Some 720, None])]]
     ''gpu_price_index.csv''
   = Some [(''date'', [Some 1, Some 2, Some 3, Some 4, Some (5::real)]),
           (''gpu_high_median'', [Some 700, Some 700, Some 700, Some 720, Some 720])]"
proof -
  let ?df = "[(''date'', [Some 1, Some 2, Some 3, Some 4, Some (5::real)]),
              (''gpu_high_median'', [None, Some 700, None, Some 720, None])]"
  let ?fs = "[''gpu_price_index.csv'' \<mapsto> ?df]"
  have h1: "?fs ''gpu_price_index.csv'' = Some ?df" by simp
  have h2: "(1::nat) < length ?df" by simp
  have h3: "fst (?df ! 1) \<noteq> ''date''" by simp
  have h4: "Some 700 \<in> set (snd (?df ! 1))" by simp
  from fill_file_no_missing [of ?fs "''gpu_price_index.csv''" ?df 1 700, OF h1 h2 h3 h4]
  obtain out where "fill_file ?fs ''gpu_price_index.csv'' = Some out" by blast
  then show ?thesis
    by (simp add: fill_file_def fill_columns_def ffill_def)
qed
section \<open>Shifting, alignment and the correlation table\<close>


lemma length_shift: "length (shift k xs) = length xs"
  by (simp add: shift_def)


lemma shift_nth:
  "i < length xs \<Longrightarrow> shift k xs ! i = (if i < k then None else xs ! (i - k))"
  by (simp add: shift_def nth_append)









subsection \<open>The rows of the correlation table\<close>

lemma filter_concat_map_select:
  assumes "distinct xs"
    and "\<And>x. x \<in> set xs \<Longrightarrow> x \<noteq> a \<Longrightarrow> filter P (F x) = []"
  shows "filter P (concat (map F xs)) = (if a \<in> set xs then filter P (F a) else [])"
  using assms by (induction xs) auto

lemma distinct_concat_map_tag:
  assumes "distinct xs"
    and "\<And>x. x \<in> set xs \<Longrightarrow> distinct (map f (F x))"
    and "\<And>x y. x \<in> set xs \<Longrightarrow> y \<in> set (F x) \<Longrightarrow> tag (f y) = x"
  shows "distinct (map f (concat (map F xs)))"
  using assms
proof (induction xs)
  case Nil
  then show ?case by simp
next
  case (Cons x xs)
  have "set (map f (F x)) \<inter> set (map f (concat (map F xs))) = {}"
  proof (rule ccontr)
    assume "set (map f (F x)) \<inter> set (map f (concat (map F xs))) \<noteq> {}"
    then obtain y z x' where "y \<in> set (F x)" "x' \<in> set xs" "z \<in> set (F x')" "f y = f z"
      by auto
    with Cons.prems(3) [of x y] Cons.prems(3) [of x' z] Cons.prems(1) show False
      by auto
  qed
  with Cons show ?case by simp
qed

lemma pair_rows_fields:
  "row \<in> set (pair_rows rv mv r m) \<Longrightarrow> risk_indicator row = rv \<and> market_variable row = mv"
  by (auto simp: pair_rows_def)

lemma market_loop_fields:
  "row \<in> set (market_loop t rv r) \<Longrightarrow> risk_indicator row = rv"
  by (auto simp: market_loop_def split: option.splits dest: pair_rows_fields)

lemma distinct_risk_vars: "distinct risk_vars"
  by (simp add: risk_vars_def)

lemma distinct_market_vars: "distinct market_vars"
  by (simp add: market_vars_def)

lemma filter_pair_rows: "filter (is_pair rv mv) (pair_rows rv mv r m) = pair_rows rv mv r m"
  by (simp add: pair_rows_def is_pair_def)

lemma filter_market_loop:
  "filter (is_pair rv mv) (market_loop t rv r) =
     (if mv \<in> set market_vars
      then (case cols t mv of None \<Rightarrow> [] | Some m \<Rightarrow> pair_rows rv mv r m) else [])"
proof -
  have "filter (is_pair rv mv)
          (case cols t x of None \<Rightarrow> [] | Some m \<Rightarrow> pair_rows rv x r m) = []"
    if "x \<noteq> mv" for x
    using that by (auto simp: is_pair_def filter_empty_conv split: option.splits
        dest: pair_rows_fields)
  then have "filter (is_pair rv mv) (market_loop t rv r) =
      (if mv \<in> set market_vars
       then filter (is_pair rv mv) (case cols t mv of None \<Rightarrow> [] | Some m \<Rightarrow> pair_rows rv mv r m)
       else [])"
    unfolding market_loop_def
    by (intro filter_concat_map_select distinct_market_vars) simp
  then show ?thesis
    by (simp add: filter_pair_rows split: option.splits)
qed

lemma filter_analyze:
  "filter (is_pair rv mv) (analyze_geopolitical_correlations t) =
     (if rv \<in> set risk_vars \<and> mv \<in> set market_vars
      then (case cols t rv of
              None \<Rightarrow> []
            | Some r \<Rightarrow> (case cols t mv of None \<Rightarrow> [] | Some m \<Rightarrow> pair_rows rv mv r m))
      else [])"
proof -
  have "filter (is_pair rv mv)
          (case cols t x of None \<Rightarrow> [] | Some r \<Rightarrow> market_loop t x r) = []"
    if "x \<noteq> rv" for x
    using that by (auto simp: is_pair_def filter_empty_conv split: option.splits
        dest: market_loop_fields)
  then have "filter (is_pair rv mv) (analyze_geopolitical_correlations t) =
      (if rv \<in> set risk_vars
       then filter (is_pair rv mv) (case cols t rv of None \<Rightarrow> [] | Some r \<Rightarrow> market_loop t rv r)
       else [])"
    unfolding analyze_geopolitical_correlations_def
    by (intro filter_concat_map_select distinct_risk_vars) simp
  then show ?thesis
    by (simp add: filter_market_loop split: option.splits)
qed

lemma distinct_pair_rows: "distinct (map triple (pair_rows rv mv r m))"
  by (simp add: pair_rows_def triple_def)

lemma distinct_market_loop: "distinct (map triple (market_loop t rv r))"
  unfolding market_loop_def
proof (rule distinct_concat_map_tag [where tag = "\<lambda>k. fst (snd k)"])
  show "distinct market_vars" by (rule distinct_market_vars)
next
  fix x
  show "distinct (map triple (case cols t x of None \<Rightarrow> [] | Some m \<Rightarrow> pair_rows rv x r m))"
    by (simp add: distinct_pair_rows split: option.splits)
next
  fix x y
  assume "y \<in> set (case cols t x of None \<Rightarrow> [] | Some m \<Rightarrow> pair_rows rv x r m)"
  then show "fst (snd (triple y)) = x"
    by (auto simp: triple_def split: option.splits dest: pair_rows_fields)
qed

lemma distinct_analyze: "distinct (map triple (analyze_geopolitical_correlations t))"
  unfolding analyze_geopolitical_correlations_def
proof (rule distinct_concat_map_tag [where tag = fst])
  show "distinct risk_vars" by (rule distinct_risk_vars)
next
  fix x
  show "distinct (map triple (case cols t x of None \<Rightarrow> [] | Some r \<Rightarrow> market_loop t x r))"
    by (simp add: distinct_market_loop split: option.splits)
next
  fix x y
  assume "y \<in> set (case cols t x of None \<Rightarrow> [] | Some r \<Rightarrow> market_loop t x r)"
  then show "fst (triple y) = x"
    by (auto simp: triple_def split: option.splits dest: market_loop_fields)
qed




section \<open>The Pearson coefficient\<close>














section \<open>Claims on the lag-correlation table\<close>

text \<open>
  The helper \<open>lagged_correlation\<close> with its default \<open>max_lag = 28\<close> sweeps the five
  weekly lags; the table is not built with it.
\<close>

lemma lagged_correlation_sweep: "map fst (lagged_correlation s1 s2 28) = [0, 7, 14, 21, 28]"
  by (simp add: lagged_correlation_def upt_rec o_def)

text \<open>
  Claim C1, as the code has it. For every risk column of \<open>risk_vars\<close> and market column
  of \<open>market_vars\<close> that the merged table holds, the table produced by
  \<open>analyze_geopolitical_correlations\<close> lists the lags 0, 7, 14 and 28 for the pair, in
  this order and once each: four rows per pair. No two rows of the table share their
  (risk indicator, market variable, lag) triple. The loop has no row for lag 21.
\<close>

theorem analyze_lags_per_pair:
  assumes "rv \<in> set risk_vars" and "mv \<in> set market_vars"
    and "cols t rv = Some r" and "cols t mv = Some m"
  shows "pair_lags (analyze_geopolitical_correlations t) rv mv = [0, 7, 14, 28]
         \<and> distinct (map triple (analyze_geopolitical_correlations t))"
  using assms by (simp add: pair_lags_def filter_analyze pair_rows_def distinct_analyze)

theorem analyze_lags_per_pair_witness:
  "pair_lags
     (analyze_geopolitical_correlations
        \<lparr>dates = [0, 1],
         cols = [''geopolitical_risk'' \<mapsto> [Some 1, Some 2],
                 ''btc_price_usd'' \<mapsto> [Some 3, Some 5]]\<rparr>)
     ''geopolitical_risk'' ''btc_price_usd'' = [0, 7, 14, 28]"
proof -
  let ?t = "\<lparr>dates = [0, 1],
             cols = [''geopolitical_risk'' \<mapsto> [Some 1, Some 2],
                     ''btc_price_usd'' \<mapsto> [Some 3, Some 5]]\<rparr>"
  have h1: "''geopolitical_risk'' \<in> set risk_vars" by (simp add: risk_vars_def)
  have h2: "''btc_price_usd'' \<in> set market_vars" by (simp add: market_vars_def)
  have h3: "cols ?t ''geopolitical_risk'' = Some [Some 1, Some 2]" by simp
  have h4: "cols ?t ''btc_price_usd'' = Some [Some 3, Some 5]" by simp
  from analyze_lags_per_pair [OF h1 h2 h3 h4] show ?thesis by simp
qed

text \<open>
  The claim as the specification words it asks for five rows per pair, one of them for
  lag 21. On a table with one risk column and one market column the pair has four rows
  and none for lag 21.
\<close>

theorem analyze_lag_21_counterexample:
  "length (pair_lags
     (analyze_geopolitical_correlations
        \<lparr>dates = [0, 1],
         cols = [''geopolitical_risk'' \<mapsto> [Some 1, Some 2],
                 ''btc_price_usd'' \<mapsto> [Some 3, Some 5]]\<rparr>)
     ''geopolitical_risk'' ''btc_price_usd'') = 4
   \<and> 21 \<notin> set (pair_lags
     (analyze_geopolitical_correlations
        \<lparr>dates = [0, 1],
         cols = [''geopolitical_risk'' \<mapsto> [Some 1, Some 2],
                 ''btc_price_usd'' \<mapsto> [Some 3, Some 5]]\<rparr>)
     ''geopolitical_risk'' ''btc_price_usd'')"
  by (simp add: pair_lags_def filter_analyze pair_rows_def risk_vars_def market_vars_def)






section \<open>Hardware tiers\<close>

lemma search_high_re_trailing_zero: "search high_re (ds @ ''0'') \<noteq> None"
proof (induction ds)
  case Nil
  show ?case by (simp add: high_re_def)
next
  case (Cons d ds)
  then show ?case by (simp split: list.splits)
qed

lemma tier_3080_high: "tier_from_title (Some ''RTX 3080 16GB'') = Some ''high''"
  by (simp add: tier_from_title_def model_re_def high_re_def is_digit_def)

lemma search_model_re_no_digit:
  "\<forall>c \<in> set s. \<not> is_digit c \<Longrightarrow> search model_re s = None"
  by (induction s) (simp_all add: model_re_def)

lemma tier_no_token: "\<forall>c \<in> set s. \<not> is_digit c \<Longrightarrow> tier_from_title (Some s) = None"
  by (simp add: tier_from_title_def search_model_re_no_digit)

lemma tier_two_digit_token: "tier_from_title (Some ''GPU 16GB'') = None"
  by (simp add: tier_from_title_def model_re_def is_digit_def)

lemma with_tier_drops_untiered:
  "tier_from_title (title row) = None \<Longrightarrow> with_tier (row # df) = with_tier df"
  by (simp add: with_tier_def List.map_filter_simps)

lemma tier_median_ignores_untiered:
  "tier_from_title (title row) = None \<Longrightarrow> tier_median (row # df) d t = tier_median df d t"
  by (simp add: tier_median_def with_tier_drops_untiered)

text \<open>
  Claim C2 at the title \<open>RTX 3060\<close>. The model number \<open>3060\<close> ends in \<open>0\<close>, and the first
  alternative \<open>8?0$\<close> of the pattern for the high tier matches any text that ends in
  \<open>0\<close>, since its \<open>8\<close> is optional. The listing is therefore put in the high tier, and
  the pattern for the mid tier is never consulted.
\<close>

theorem tier_3060_is_high: "tier_from_title (Some ''RTX 3060'') = Some ''high''"
  by (simp add: tier_from_title_def model_re_def high_re_def is_digit_def)

section \<open>Linear interpolation of the price columns\<close>


lemma first_obs_None_iff: "first_obs k xs = None \<longleftrightarrow> (\<forall>x \<in> set xs. x = None)"
  by (induction k xs rule: first_obs.induct) simp_all

lemma first_obs_at:
  "j < length xs \<Longrightarrow> xs ! j = Some v \<Longrightarrow> (\<forall>j' < j. xs ! j' = None) \<Longrightarrow>
   first_obs k xs = Some (k + j, v)"
proof (induction k xs arbitrary: j rule: first_obs.induct)
  case (1 k)
  then show ?case by simp
next
  case (2 k w xs)
  then show ?case by (cases j) auto
next
  case (3 k xs)
  show ?case
  proof (cases j)
    case 0
    with 3 show ?thesis by simp
  next
    case (Suc j')
    have "first_obs (Suc k) xs = Some (Suc k + j', v)"
    proof (rule "3.IH")
      show "j' < length xs" using "3.prems"(1) Suc by simp
      show "xs ! j' = Some v" using "3.prems"(2) Suc by simp
      show "\<forall>i < j'. xs ! i = None"
      proof (intro allI impI)
        fix i assume "i < j'"
        then have "Suc i < j" using Suc by simp
        with "3.prems"(3) have "(None # xs) ! Suc i = None" by blast
        then show "xs ! i = None" by simp
      qed
    qed
    then show ?thesis using Suc by simp
  qed
qed

lemma next_obs_gap:
  assumes "i \<le> q" and "q < length xs" and "xs ! q = Some b"
    and "\<forall>j. i \<le> j \<and> j < q \<longrightarrow> xs ! j = None"
  shows "next_obs xs i = Some (q, b)"
proof -
  have "first_obs i (drop i xs) = Some (i + (q - i), b)"
  proof (rule first_obs_at)
    show "q - i < length (drop i xs)" using assms(1,2) by simp
    show "drop i xs ! (q - i) = Some b" using assms(1,2,3) by simp
    show "\<forall>j' < q - i. drop i xs ! j' = None"
      using assms(1,2,4) by simp
  qed
  then show ?thesis using assms(1) by (simp add: next_obs_def)
qed

lemma next_obs_none:
  assumes "\<forall>j. i \<le> j \<and> j < length xs \<longrightarrow> xs ! j = None"
  shows "next_obs xs i = None"
proof -
  have "\<forall>x \<in> set (drop i xs). x = None"
  proof
    fix x assume "x \<in> set (drop i xs)"
    then obtain j where "j < length (drop i xs)" and "drop i xs ! j = x"
      by (auto simp: in_set_conv_nth)
    with assms show "x = None" by simp
  qed
  then show ?thesis by (simp add: next_obs_def first_obs_None_iff)
qed

lemma rev_take_nth:
  "i < length xs \<Longrightarrow> j \<le> i \<Longrightarrow> rev (take (Suc i) xs) ! j = xs ! (i - j)"
  by (simp add: rev_nth)

lemma prev_obs_gap:
  assumes "p \<le> i" and "i < length xs" and "xs ! p = Some a"
    and "\<forall>j. p < j \<and> j \<le> i \<longrightarrow> xs ! j = None"
  shows "prev_obs xs i = Some (p, a)"
proof -
  have "first_obs 0 (rev (take (Suc i) xs)) = Some (0 + (i - p), a)"
  proof (rule first_obs_at)
    show "i - p < length (rev (take (Suc i) xs))" using assms(2) by simp
    show "rev (take (Suc i) xs) ! (i - p) = Some a"
      using assms(1,2,3) by (simp add: rev_take_nth)
    show "\<forall>j' < i - p. rev (take (Suc i) xs) ! j' = None"
      using assms(1,2,4) by (simp add: rev_take_nth)
  qed
  then show ?thesis using assms(1) by (simp add: prev_obs_def)
qed

lemma prev_obs_none:
  assumes "i < length xs" and "\<forall>j \<le> i. xs ! j = None"
  shows "prev_obs xs i = None"
proof -
  have "\<forall>x \<in> set (rev (take (Suc i) xs)). x = None"
  proof
    fix x assume "x \<in> set (rev (take (Suc i) xs))"
    then have "x \<in> set (take (Suc i) xs)" by simp
    then obtain j where "j < length (take (Suc i) xs)" and "take (Suc i) xs ! j = x"
      by (auto simp: in_set_conv_nth)
    with assms show "x = None" by simp
  qed
  then have "first_obs 0 (rev (take (Suc i) xs)) = None"
    by (simp only: first_obs_None_iff)
  then show ?thesis by (simp add: prev_obs_def)
qed

lemma interpolate_forward_nth:
  "i < length xs \<Longrightarrow> interpolate_forward xs ! i = interp_at xs i"
  by (simp add: interpolate_forward_def)

text \<open>
  Claim C5, as the code has it. After the forward linear interpolation of a price-like
  column: an observed row keeps its value; a missing row above the first observation
  stays missing; a missing row between two observations gets the value on the straight
  line through them; and a missing row below the last observation is filled with the
  last observation. Only the rows above the first observation are left alone.
\<close>

theorem interpolate_forward_fills:
  assumes "i < length xs"
  shows "(\<forall>v. xs ! i = Some v \<longrightarrow> interpolate_forward xs ! i = Some v)
       \<and> ((\<forall>j \<le> i. xs ! j = None) \<longrightarrow> interpolate_forward xs ! i = None)
       \<and> (\<forall>p q a b. p < i \<and> i < q \<and> q < length xs \<and> xs ! p = Some a \<and> xs ! q = Some b
             \<and> (\<forall>j. p < j \<and> j < q \<longrightarrow> xs ! j = None) \<longrightarrow>
             interpolate_forward xs ! i
               = Some (a + (b - a) * (real i - real p) / (real q - real p)))
       \<and> (\<forall>p a. p < i \<and> xs ! p = Some a \<and> (\<forall>j. p < j \<and> j < length xs \<longrightarrow> xs ! j = None) \<longrightarrow>
             interpolate_forward xs ! i = Some a)"
proof (intro conjI allI impI)
  fix v assume "xs ! i = Some v"
  then show "interpolate_forward xs ! i = Some v"
    using assms by (simp add: interpolate_forward_nth interp_at_def)
next
  assume lead: "\<forall>j \<le> i. xs ! j = None"
  then have "xs ! i = None" by simp
  moreover have "prev_obs xs i = None"
    using assms lead by (rule prev_obs_none)
  ultimately show "interpolate_forward xs ! i = None"
    using assms by (simp add: interpolate_forward_nth interp_at_def)
next
  fix p q a b
  assume h: "p < i \<and> i < q \<and> q < length xs \<and> xs ! p = Some a \<and> xs ! q = Some b
             \<and> (\<forall>j. p < j \<and> j < q \<longrightarrow> xs ! j = None)"
  then have here: "xs ! i = None" by simp
  have prev: "prev_obs xs i = Some (p, a)"
    using h assms by (intro prev_obs_gap) auto
  have nxt: "next_obs xs i = Some (q, b)"
    using h by (intro next_obs_gap) auto
  show "interpolate_forward xs ! i
          = Some (a + (b - a) * (real i - real p) / (real q - real p))"
    using assms here prev nxt
    by (simp add: interpolate_forward_nth interp_at_def algebra_simps)
next
  fix p a
  assume h: "p < i \<and> xs ! p = Some a \<and> (\<forall>j. p < j \<and> j < length xs \<longrightarrow> xs ! j = None)"
  then have here: "xs ! i = None" using assms by simp
  have prev: "prev_obs xs i = Some (p, a)"
    using h assms by (intro prev_obs_gap) auto
  have nxt: "next_obs xs i = None"
    using h by (intro next_obs_none) auto
  show "interpolate_forward xs ! i = Some a"
    using assms here prev nxt by (simp add: interpolate_forward_nth interp_at_def)
qed


theorem interpolate_forward_fills_witness:
  "interpolate_forward [None, Some 1, None, Some 3, None] ! 0 = None
   \<and> interpolate_forward [None, Some 1, None, Some 3, None] ! 1 = Some 1
   \<and> interpolate_forward [None, Some 1, None, Some 3, None] ! 2 = Some 2
   \<and> interpolate_forward [None, Some 1, None, Some 3, None] ! 4 = Some 3"
proof -
  let ?xs = "[None, Some 1, None, Some 3, None] :: series"
  have lead: "\<forall>j \<le> 0. ?xs ! j = None" by simp
  have gap: "\<forall>j. 1 < j \<and> j < 3 \<longrightarrow> ?xs ! j = None"
  proof (intro allI impI)
    fix j :: nat assume "1 < j \<and> j < 3"
    then have "j = 2" by arith
    then show "?xs ! j = None" by simp
  qed
  have tail: "\<forall>j. 3 < j \<and> j < length ?xs \<longrightarrow> ?xs ! j = None"
  proof (intro allI impI)
    fix j :: nat assume "3 < j \<and> j < length ?xs"
    then have "j = 4" by simp
    then show "?xs ! j = None" by simp
  qed
  have i0: "0 < length ?xs" and i1: "1 < length ?xs" and i2: "2 < length ?xs"
    and i4: "4 < length ?xs" by simp_all
  have a: "interpolate_forward ?xs ! 0 = None"
    using interpolate_forward_fills [OF i0] lead by blast
  have "?xs ! 1 = Some 1" by simp
  with interpolate_forward_fills [OF i1]
  have b: "interpolate_forward ?xs ! 1 = Some 1" by blast
  have "1 < (2::nat) \<and> (2::nat) < 3 \<and> 3 < length ?xs \<and> ?xs ! 1 = Some 1 \<and> ?xs ! 3 = Some 3
        \<and> (\<forall>j. 1 < j \<and> j < 3 \<longrightarrow> ?xs ! j = None)"
    using gap by simp
  with interpolate_forward_fills [OF i2]
  have "interpolate_forward ?xs ! 2 = Some (1 + (3 - 1) * (real 2 - real 1) / (real 3 - real 1))"
    by blast
  then have c: "interpolate_forward ?xs ! 2 = Some 2" by simp
  have "3 < (4::nat) \<and> ?xs ! 3 = Some 3 \<and> (\<forall>j. 3 < j \<and> j < length ?xs \<longrightarrow> ?xs ! j = None)"
    using tail by simp
  with interpolate_forward_fills [OF i4]
  have d: "interpolate_forward ?xs ! 4 = Some 3" by blast
  from a b c d show ?thesis by simp
qed

text \<open>
  The claim as worded has the rows after the last observation left missing. The last two
  rows of this column lie after its last observation, and both are filled with it.
\<close>

theorem interpolate_trailing_counterexample:
  "interpolate_forward [Some 1, None, Some 3, None, None]
     = [Some 1, Some 2, Some 3, Some 3, Some 3]"
  by (simp add: interpolate_forward_def interp_at_def prev_obs_def next_obs_def upt_rec)


section \<open>Rolling volatility\<close>















section \<open>Percentage returns\<close>












text \<open>
  Without the padding (\<open>fill_method=None\<close>, which the source does not pass) the change
  would be missing next to every missing row.
\<close>

lemma pct_change_no_fill_gap:
  assumes "t < length xs" and "0 < t" and "xs ! (t - 1) = None \<or> xs ! t = None"
  shows "pct_change NoFill xs ! t = None"
  using assms
  by (auto simp: pct_change_def length_shift shift_nth ratio_change_def split: option.splits)


section \<open>Forecast scenarios\<close>


lemma length_recent_btc: "length (recent_btc ts_df) \<le> 60"
  by (simp add: recent_btc_def tail_def)

text \<open>
  Claim C8, as the code has it. Let \<open>r\<close> be the mean risk of the rows of the latest
  date, \<open>c\<close> the last of the most recent 60 BTC prices (at most 60, missing ones
  skipped) and \<open>v\<close> the sample standard deviation of these prices. When \<open>c\<close> is not
  zero the forecast is returned with \<open>base = c * (1 + r * 0.15)\<close>, \<open>bull = base + v\<close>,
  \<open>bear = base - v\<close> and \<open>stress = c * (1 + r * 2 * 0.15)\<close>.
\<close>

theorem forecast_scenarios:
  assumes "recent_btc ts_df \<noteq> []"
    and "nanmean (map geopolitical_risk (latest_rows geo_df)) = Some r"
    and "sample_std (recent_btc ts_df) = Some v"
    and "last (recent_btc ts_df) = c"
    and "c \<noteq> 0"
  shows "\<exists>f. forecast_btc_from_risk geo_df ts_df days_ahead = Some f
           \<and> current_btc f = c
           \<and> current_risk f = Some r
           \<and> base_case f = Some (c * (1 + r * 0.15))
           \<and> bull_case f = Some (c * (1 + r * 0.15) + v)
           \<and> bear_case f = Some (c * (1 + r * 0.15) - v)
           \<and> stress_scenario f = Some (c * (1 + r * 2 * 0.15))"
  using assms
  by (simp add: forecast_btc_from_risk_def Let_def lift2_def fdiv_def algebra_simps)

theorem forecast_scenarios_witness:
  "map_option base_case
     (forecast_btc_from_risk
        [\<lparr>g_date = 4, country = ''A'', geopolitical_risk = Some 9, conflicts = Some 0\<rparr>,
         \<lparr>g_date = 5, country = ''A'', geopolitical_risk = Some 1, conflicts = Some 0\<rparr>,
         \<lparr>g_date = 5, country = ''B'', geopolitical_risk = Some 3, conflicts = Some 0\<rparr>]
        [\<lparr>t_date = 3, btc_price_usd = Some 102\<rparr>, \<lparr>t_date = 1, btc_price_usd = Some 98\<rparr>,
         \<lparr>t_date = 4, btc_price_usd = None\<rparr>, \<lparr>t_date = 2, btc_price_usd = Some 100\<rparr>]
        28) = Some (Some (102 * (1 + 2 * 0.15)))
   \<and> map_option bull_case
     (forecast_btc_from_risk
        [\<lparr>g_date = 4, country = ''A'', geopolitical_risk = Some 9, conflicts = Some 0\<rparr>,
         \<lparr>g_date = 5, country = ''A'', geopolitical_risk = Some 1, conflicts = Some 0\<rparr>,
         \<lparr>g_date = 5, country = ''B'', geopolitical_risk = Some 3, conflicts = Some 0\<rparr>]
        [\<lparr>t_date = 3, btc_price_usd = Some 102\<rparr>, \<lparr>t_date = 1, btc_price_usd = Some 98\<rparr>,
         \<lparr>t_date = 4, btc_price_usd = None\<rparr>, \<lparr>t_date = 2, btc_price_usd = Some 100\<rparr>]
        28) = Some (Some (102 * (1 + 2 * 0.15) + 2))
   \<and> map_option stress_scenario
     (forecast_btc_from_risk
        [\<lparr>g_date = 4, country = ''A'', geopolitical_risk = Some 9, conflicts = Some 0\<rparr>,
         \<lparr>g_date = 5, country = ''A'', geopolitical_risk = Some 1, conflicts = Some 0\<rparr>,
         \<lparr>g_date = 5, country = ''B'', geopolitical_risk = Some 3, conflicts = Some 0\<rparr>]
        [\<lparr>t_date = 3, btc_price_usd = Some 102\<rparr>, \<lparr>t_date = 1, btc_price_usd = Some 98\<rparr>,
         \<lparr>t_date = 4, btc_price_usd = None\<rparr>, \<lparr>t_date = 2, btc_price_usd = Some 100\<rparr>]
        28) = Some (Some (102 * (1 + 2 * 2 * 0.15)))"
proof -
  let ?geo = "[\<lparr>g_date = 4, country = ''A'', geopolitical_risk = Some 9, conflicts = Some 0\<rparr>,
         \<lparr>g_date = 5, country = ''A'', geopolitical_risk = Some 1, conflicts = Some 0\<rparr>,
         \<lparr>g_date = 5, country = ''B'', geopolitical_risk = Some 3, conflicts = Some 0\<rparr>]"
  let ?ts = "[\<lparr>t_date = 3, btc_price_usd = Some 102\<rparr>, \<lparr>t_date = 1, btc_price_usd = Some 98\<rparr>,
         \<lparr>t_date = 4, btc_price_usd = None\<rparr>, \<lparr>t_date = 2, btc_price_usd = Some 100\<rparr>]"
  have rec: "recent_btc ?ts = [98, 100, 102]"
    by (simp add: recent_btc_def tail_def observed_def)
  have h1: "recent_btc ?ts \<noteq> []" by (simp add: rec)
  have h2: "nanmean (map geopolitical_risk (latest_rows ?geo)) = Some 2"
    by (simp add: latest_rows_def max_date_def nanmean_def observed_def mean_def)
  have h3: "sample_std (recent_btc ?ts) = Some 2"
    by (simp add: rec sample_std_def mean_def)
  have h4: "last (recent_btc ?ts) = 102" by (simp add: rec)
  have h5: "(102::real) \<noteq> 0" by simp
  from forecast_scenarios [OF h1 h2 h3 h4 h5, of 28]
  show ?thesis by auto
qed

text \<open>
  The bull and bear cases are computed as \<open>c * (1 + r * 0.15 \<plusminus> v / c)\<close>. With a current
  price of zero the quotient \<open>v / c\<close> is no finite number and neither is the product:
  here the base case is 0 and the volatility is 1, and the bull case is NaN, not
  \<open>base + v = 1\<close>.
\<close>

theorem forecast_zero_price_counterexample:
  "map_option base_case
     (forecast_btc_from_risk
        [\<lparr>g_date = 0, country = ''A'', geopolitical_risk = Some 1, conflicts = Some 0\<rparr>]
        [\<lparr>t_date = 0, btc_price_usd = Some 2\<rparr>, \<lparr>t_date = 1, btc_price_usd = Some 1\<rparr>,
         \<lparr>t_date = 2, btc_price_usd = Some 0\<rparr>]
        28) = Some (Some 0)
   \<and> sample_std
       (recent_btc
          [\<lparr>t_date = 0, btc_price_usd = Some 2\<rparr>, \<lparr>t_date = 1, btc_price_usd = Some 1\<rparr>,
           \<lparr>t_date = 2, btc_price_usd = Some 0\<rparr>]) = Some 1
   \<and> map_option bull_case
     (forecast_btc_from_risk
        [\<lparr>g_date = 0, country = ''A'', geopolitical_risk = Some 1, conflicts = Some 0\<rparr>]
        [\<lparr>t_date = 0, btc_price_usd = Some 2\<rparr>, \<lparr>t_date = 1, btc_price_usd = Some 1\<rparr>,
         \<lparr>t_date = 2, btc_price_usd = Some 0\<rparr>]
        28) = Some None"
proof -
  let ?ts = "[\<lparr>t_date = 0, btc_price_usd = Some 2\<rparr>, \<lparr>t_date = 1, btc_price_usd = Some 1\<rparr>,
              \<lparr>t_date = 2, btc_price_usd = Some 0\<rparr>]"
  have rec: "recent_btc ?ts = [2, 1, 0]"
    by (simp add: recent_btc_def tail_def observed_def)
  have sd: "sample_std [2, 1, 0] = Some 1"
    by (simp add: sample_std_def mean_def)
  show ?thesis
    by (simp add: forecast_btc_from_risk_def Let_def rec sd lift2_def fdiv_def
        latest_rows_def max_date_def nanmean_def observed_def mean_def)
qed


section \<open>Early-warning signals\<close>

lemma trend_signals_short: "length bd \<le> 7 \<Longrightarrow> trend_signals bd = []"
  by (simp add: trend_signals_def)

lemma warning_iff:
  "7 < length bd \<Longrightarrow>
   (\<exists>s \<in> set (trend_signals bd). sig_type s = ''WARNING'')
     \<longleftrightarrow> exceeds (trend (rolling_mean 7 (map (\<lambda>(d, r, c). r) bd))) 0.3"
  by (auto simp: trend_signals_def Let_def)

lemma alert_iff:
  "7 < length bd \<Longrightarrow>
   (\<exists>s \<in> set (trend_signals bd). sig_type s = ''ALERT'')
     \<longleftrightarrow> exceeds (trend (rolling_mean 7 (map (\<lambda>(d, r, c). c) bd))) 0.5"
  by (auto simp: trend_signals_def Let_def)

lemma info_iff:
  "7 < length bd \<Longrightarrow>
   (\<exists>s \<in> set (trend_signals bd). sig_type s = ''INFO'')
     \<longleftrightarrow> below (trend (rolling_mean 7 (map (\<lambda>(d, r, c). r) bd))) (- 0.3)"
  by (auto simp: trend_signals_def Let_def)

lemma critical_per_row:
  "map indicator (country_signals geo_df) =
     map (\<lambda>row. country row @ '' - Extreme Risk'')
       (filter (\<lambda>row. exceeds (geopolitical_risk row) 1.0) (latest_rows geo_df))"
  by (simp add: country_signals_def o_def)

lemma critical_fires_at_1_2:
  "calculate_early_warning_signals
     [\<lparr>g_date = 0, country = ''X'', geopolitical_risk = Some 1.2, conflicts = Some 0\<rparr>]
   = [\<lparr>sig_type = ''CRITICAL'', indicator = ''X - Extreme Risk'', sig_value = 1.2\<rparr>]"
  by (simp add: calculate_early_warning_signals_def country_signals_def latest_rows_def
      recent_rows_def max_date_def by_date_def trend_signals_def exceeds_def)

lemma critical_silent_at_0_95:
  "calculate_early_warning_signals
     [\<lparr>g_date = 0, country = ''X'', geopolitical_risk = Some 0.95, conflicts = Some 0\<rparr>]
   = []"
  by (simp add: calculate_early_warning_signals_def country_signals_def latest_rows_def
      recent_rows_def max_date_def by_date_def trend_signals_def exceeds_def)

lemma recent_rows_steady_rise: "recent_rows steady_rise = steady_rise"
  by (simp add: steady_rise_def recent_rows_def max_date_def upt_rec)

lemma by_date_steady_rise:
  "by_date steady_rise = map (\<lambda>d. (int d, Some (9 * real d / 200), Some 0)) [0 ..< 14]"
  by (simp add: steady_rise_def by_date_def upt_rec nanmean_def observed_def mean_def)

lemma risk_ma7_steady_rise:
  "rolling_mean 7 (map (\<lambda>(d, r, c). r) (by_date steady_rise)) =
     [None, None, None, None, None, None, Some (27 / 200), Some (36 / 200), Some (45 / 200),
      Some (54 / 200), Some (63 / 200), Some (72 / 200), Some (81 / 200), Some (90 / 200)]"
  by (simp add: by_date_steady_rise rolling_mean_def window_at_def observed_def mean_def
      upt_rec Let_def)

lemma conflict_ma7_steady_rise:
  "rolling_mean 7 (map (\<lambda>(d, r, c). c) (by_date steady_rise)) =
     [None, None, None, None, None, None, Some 0, Some 0, Some 0, Some 0, Some 0, Some 0,
      Some 0, Some 0]"
  by (simp add: by_date_steady_rise rolling_mean_def window_at_def observed_def mean_def
      upt_rec Let_def)

lemma latest_rows_steady_rise:
  "latest_rows steady_rise =
     [\<lparr>g_date = 13, country = ''A'', geopolitical_risk = Some (117 / 200),
       conflicts = Some 0\<rparr>]"
  by (simp add: steady_rise_def latest_rows_def max_date_def upt_rec)

text \<open>
  Claim C9 on \<open>steady_rise\<close>. The 7-day moving average of the risk rises by 0.045 a
  day, so its last value exceeds the value of seven days before by 0.315, more than the
  threshold 0.3, and the claim asks for a WARNING. The code subtracts \<open>ma7.iloc[-7]\<close>,
  the value six rows above the last, finds a trend of 0.27 and emits no signal, although
  its message reads "over 7 days".
\<close>

theorem warning_missed_on_steady_rise:
  "calculate_early_warning_signals steady_rise = []
   \<and> trend (rolling_mean 7 (map (\<lambda>(d, r, c). r) (by_date (recent_rows steady_rise))))
       = Some (27 / 100)
   \<and> trend_over_7 (rolling_mean 7 (map (\<lambda>(d, r, c). r) (by_date (recent_rows steady_rise))))
       = Some (63 / 200)"
  by (simp add: calculate_early_warning_signals_def trend_signals_def country_signals_def
      recent_rows_steady_rise risk_ma7_steady_rise conflict_ma7_steady_rise
      latest_rows_steady_rise trend_def trend_over_7_def iloc_neg_def lift2_def exceeds_def
      below_def Let_def)

end
